theory Spec2Isabelle
  imports Main "HOL-Library.Signed_Division"
begin

section \<open>BlueLogger: a leveled, colorized logger\<close>

text \<open>
  The repository holds two iterations of the same package: \<^verbatim>\<open>log.go\<close> (type
  \<^verbatim>\<open>Level\<close>, \<^verbatim>\<open>TRACE = 0\<close> up to \<^verbatim>\<open>ERROR = 4\<close>) and a second file (type
  \<^verbatim>\<open>LogLevel\<close>, \<^verbatim>\<open>LevelError = 0\<close> up to \<^verbatim>\<open>LevelTrace = 4\<close>, with formatted
  variants). The definitions of \<^verbatim>\<open>log.go\<close> keep the source's names; those of the second
  file carry a prime where the name is the same. \<^verbatim>\<open>itoa\<close> is the same text in both files
  and is embedded once, as are \<^verbatim>\<open>New\<close>, \<^verbatim>\<open>Level\<close>, \<^verbatim>\<open>Output\<close> and
  \<^verbatim>\<open>SetOutput\<close>. The source's \<^verbatim>\<open>write\<close> is \<open>write_msg\<close> here, since \<open>write\<close> is a
  keyword of the proof language.

  Go's \<^verbatim>\<open>int\<close> is taken as 64 bits and modelled by \<open>int\<close>; the one operation of the code
  that can leave the 64-bit range on in-range inputs, \<^verbatim>\<open>wid--\<close>, wraps explicitly.
  \<^verbatim>\<open>Level\<close> and \<^verbatim>\<open>LogLevel\<close> are \<^verbatim>\<open>int32\<close>; the code only stores and compares
  them, so they are \<open>int\<close> as well. The mutex is not modelled: the embedding is sequential.
\<close>

subsection \<open>Byte helpers and panics\<close>

datatype panic = IndexOutOfRange

definition wrap_int :: "int \<Rightarrow> int" where
  \<comment> \<open>the value of a 64-bit signed integer after an operation that may overflow\<close>
  "wrap_int x = (x + 2 ^ 63) mod 2 ^ 64 - 2 ^ 63"

definition byte :: "int \<Rightarrow> char" where
  \<comment> \<open>Go's conversion \<^verbatim>\<open>byte(x)\<close>: the low eight bits\<close>
  "byte x = char_of (nat (x mod 256))"

definition ESC :: char where
  "ESC = CHR 0x1B"

subsection \<open>The colour package\<close>

text \<open>
  Modelled from the spec: the package \<^verbatim>\<open>acolor\<close> (an imported dependency, absent from
  the sources). The spec treats it as a collaborator that maps colour names to ANSI SGR
  escape sequences \<^verbatim>\<open>ESC[\<close> ... \<^verbatim>\<open>m\<close> and gives the reset sequence \<^verbatim>\<open>ESC[0m\<close>; the
  codes are the standard SGR numbers.
\<close>

datatype Code = Bold | Red | Green | Yellow | Cyan | White | BlackHi

fun code_str :: "Code \<Rightarrow> string" where
  "code_str Bold = ''1''"
| "code_str Red = ''31''"
| "code_str Green = ''32''"
| "code_str Yellow = ''33''"
| "code_str Cyan = ''36''"
| "code_str White = ''37''"
| "code_str BlackHi = ''90''"

fun join_codes :: "Code list \<Rightarrow> string" where
  "join_codes [] = []"
| "join_codes [c] = code_str c"
| "join_codes (c # cs) = code_str c @ '';'' @ join_codes cs"

definition acolor_Apply :: "Code list \<Rightarrow> string" where
  "acolor_Apply cs = ESC # ''['' @ join_codes cs @ ''m''"

definition acolor_Clear :: string where
  "acolor_Clear = ESC # ''[0m''"

subsection \<open>Decimal digits\<close>

text \<open>
  The decimal representation of a natural number, most significant digit first, without
  leading zeros (\<open>0\<close> is the one digit \<^verbatim>\<open>0\<close>); 48 is the code of the character \<^verbatim>\<open>0\<close>.
\<close>

fun decimal :: "nat \<Rightarrow> string" where
  "decimal n = (if n < 10 then [char_of (48 + n)]
                else decimal (n div 10) @ [char_of (48 + n mod 10)])"

declare decimal.simps [simp del]

subsection \<open>Time, message values and the output sink\<close>

text \<open>
  Modelled from the spec: Go's \<^verbatim>\<open>time.Time\<close>, as the calendar and clock fields the
  header reads (\<^verbatim>\<open>Date\<close>, \<^verbatim>\<open>Clock\<close>, \<^verbatim>\<open>Nanosecond\<close>), once in the time's own
  location and once in UTC; \<^verbatim>\<open>UTC()\<close> switches to the latter. \<^verbatim>\<open>time.Now()\<close> is an
  argument \<open>now\<close> of every function that reaches it.
\<close>

record Civil =
  year :: int
  month :: int
  day :: int
  hour :: int
  minute :: int
  sec :: int
  nanosecond :: int

record Time =
  here :: Civil
  in_utc :: Civil

definition Time_UTC :: "Time \<Rightarrow> Time" where
  "Time_UTC t = t\<lparr>here := in_utc t\<rparr>"

definition valid_Civil :: "Civil \<Rightarrow> bool" where
  \<comment> \<open>the fields of a time read from the clock\<close>
  "valid_Civil c \<longleftrightarrow>
     0 \<le> year c \<and> year c < 2 ^ 63 \<and> 1 \<le> month c \<and> month c \<le> 12 \<and>
     1 \<le> day c \<and> day c \<le> 31 \<and> 0 \<le> hour c \<and> hour c < 24 \<and>
     0 \<le> minute c \<and> minute c < 60 \<and> 0 \<le> sec c \<and> sec c < 60 \<and>
     0 \<le> nanosecond c \<and> nanosecond c < 1000000000"

definition valid_Time :: "Time \<Rightarrow> bool" where
  "valid_Time t \<longleftrightarrow> valid_Civil (here t) \<and> valid_Civil (in_utc t)"

text \<open>
  Modelled from the spec: the operands of \<^verbatim>\<open>fmt.Sprint\<close> (\<^verbatim>\<open>v ...interface{}\<close>),
  restricted to strings and integers. \<^verbatim>\<open>Sprint\<close> prints each operand in its default
  format and adds a space between two operands when neither is a string.
  \<^verbatim>\<open>fmt.Sprintf\<close> is an argument \<open>sprintf\<close> of the functions that call it.
\<close>

datatype val = VString string | VInt int

fun fmt_v :: "val \<Rightarrow> string" where
  "fmt_v (VString s) = s"
| "fmt_v (VInt i) = (if i < 0 then ''-'' @ decimal (nat (- i)) else decimal (nat i))"

fun is_string :: "val \<Rightarrow> bool" where
  "is_string (VString s) = True"
| "is_string (VInt i) = False"

fun fmt_Sprint :: "val list \<Rightarrow> string" where
  "fmt_Sprint [] = []"
| "fmt_Sprint [a] = fmt_v a"
| "fmt_Sprint (a # b # r) =
     fmt_v a @ (if \<not> is_string a \<and> \<not> is_string b then '' '' else []) @ fmt_Sprint (b # r)"

text \<open>
  Modelled from the spec: the sink, an \<^verbatim>\<open>io.Writer\<close>. It records every block handed
  to \<^verbatim>\<open>Write\<close> and answers with its fixed error value (\<open>None\<close> is Go's \<^verbatim>\<open>nil\<close>).
\<close>

datatype error = WriteFailed

record Writer =
  written :: "string list"
  failure :: "error option"

definition Writer_Write :: "Writer \<Rightarrow> string \<Rightarrow> Writer \<times> error option" where
  "Writer_Write w bs = (w\<lparr>written := written w @ [bs]\<rparr>, failure w)"

definition os_Stderr :: Writer where
  "os_Stderr = \<lparr>written = [], failure = None\<rparr>"

subsection \<open>The logger\<close>

record Logger =
  Color :: bool
  UTC :: bool
  Head :: bool
  HeadLevel :: bool
  HeadDate :: bool
  HeadTime :: bool
  HeadMC :: bool
  out :: Writer
  level :: int
  buf :: string

text \<open>
  The process around a logger: the logger itself and a count of the calls of
  \<^verbatim>\<open>fmt.Sprint\<close> and \<^verbatim>\<open>fmt.Sprintf\<close> made so far (the message-construction spy of the
  spec's testable properties).
\<close>

record proc =
  logger :: Logger
  fmt_calls :: nat

datatype outcome = Returned proc | Exited int proc | Panicked panic

subsection \<open>itoa (both files)\<close>

function itoa_loop :: "string \<Rightarrow> int \<Rightarrow> int \<Rightarrow> int \<Rightarrow> panic + (string \<times> int \<times> int)" where
  "itoa_loop b bp i wid =
     (if i \<ge> 10 \<or> wid > 1 then
        (if 0 \<le> bp \<and> bp < int (length b)
         then itoa_loop (b[nat bp := byte (48 + i - (i sdiv 10) * 10)])
                (bp - 1) (i sdiv 10) (wrap_int (wid - 1))
         else Inl IndexOutOfRange)
      else Inr (b, bp, i))"
  by pat_completeness auto
termination
  by (relation "measure (\<lambda>(b, bp, i, wid). nat (bp + 1))") auto

declare itoa_loop.simps [simp del]

definition itoa :: "string \<Rightarrow> int \<Rightarrow> int \<Rightarrow> panic + string" where
  "itoa buf' i wid =
     (case itoa_loop (replicate 20 (CHR 0x00)) 19 i wid of
        Inl e \<Rightarrow> Inl e
      | Inr (b, bp, i') \<Rightarrow>
          if 0 \<le> bp \<and> bp < int (length b)
          then Inr (buf' @ drop (nat bp) (b[nat bp := byte (48 + i')]))
          else Inl IndexOutOfRange)"

definition bind :: "panic + 'a \<Rightarrow> ('a \<Rightarrow> panic + 'b) \<Rightarrow> panic + 'b" where
  \<comment> \<open>sequencing: a panic ends the computation\<close>
  "bind m f = (case m of Inl e \<Rightarrow> Inl e | Inr x \<Rightarrow> f x)"

subsection \<open>log.go: levels, header, write path and the emit operations\<close>

definition TRACE :: int where "TRACE = 0"
definition DEBUG :: int where "DEBUG = 1"
definition INFO :: int where "INFO = 2"
definition WARN :: int where "WARN = 3"
definition ERROR :: int where "ERROR = 4"

definition New :: "Writer \<Rightarrow> int \<Rightarrow> Logger" where
  \<comment> \<open>the same text in both files\<close>
  "New w lv = \<lparr>Color = True, UTC = True, Head = True, HeadLevel = True, HeadDate = True,
                HeadTime = True, HeadMC = False, out = w, level = lv, buf = []\<rparr>"

definition std :: Logger where
  "std = New os_Stderr DEBUG"

definition getHeaderLevel :: "Logger \<Rightarrow> int \<Rightarrow> string" where
  "getHeaderLevel l lv =
     (if Color l then
        (if lv = INFO then acolor_Apply [Bold, Green] @ ''[INFO]  '' @ acolor_Clear
         else if lv = WARN then acolor_Apply [Bold, Yellow] @ ''[WARN]  '' @ acolor_Clear
         else if lv = TRACE then acolor_Apply [Bold, White] @ ''[TRACE] '' @ acolor_Clear
         else if lv = DEBUG then acolor_Apply [Bold, Cyan] @ ''[DEBUG] '' @ acolor_Clear
         else acolor_Apply [Bold, Red] @ ''[ERROR] '' @ acolor_Clear)
      else
        (if lv = INFO then ''[INFO]  ''
         else if lv = WARN then ''[WARN]  ''
         else if lv = TRACE then ''[TRACE] ''
         else if lv = DEBUG then ''[DEBUG] ''
         else ''[ERROR] ''))"

definition writeHeader :: "Logger \<Rightarrow> Time \<Rightarrow> string \<Rightarrow> int \<Rightarrow> panic + string" where
  "writeHeader l now0 b lv =
     (let b1 = (if HeadLevel l then b @ getHeaderLevel l lv else b);
          b2 = (if Color l
                then (if lv = ERROR then b1 @ acolor_Apply [Red] else b1 @ acolor_Apply [BlackHi])
                else b1)
      in bind
           (if HeadDate l \<or> HeadTime l then
              (let now = here (if UTC l then Time_UTC now0 else now0) in
               bind
                 (if HeadDate l then
                    bind (itoa b2 (day now) 2) (\<lambda>b.
                    bind (itoa (b @ ''.'') (month now) 2) (\<lambda>b.
                    bind (itoa (b @ ''.'') (year now) 4) (\<lambda>b.
                    Inr (b @ '' ''))))
                  else Inr b2)
                 (\<lambda>b3.
                    if HeadTime l then
                      bind (itoa b3 (hour now) 2) (\<lambda>b.
                      bind (itoa (b @ '':'') (minute now) 2) (\<lambda>b.
                      bind (itoa (b @ '':'') (sec now) 2) (\<lambda>b.
                      bind (if HeadMC l then itoa (b @ ''.'') (nanosecond now sdiv 1000) 6
                            else Inr b) (\<lambda>b.
                      Inr (b @ '' '')))))
                    else Inr b3))
            else Inr b2)
           (\<lambda>b4.
              if length b4 = 0 then Inr b4
              else Inr (if Color l then take (length b4 - 1) b4 @ '': '' @ acolor_Clear
                        else take (length b4 - 1) b4 @ '': '')))"

definition write_msg :: "Time \<Rightarrow> int \<Rightarrow> val list \<Rightarrow> proc \<Rightarrow> panic + (error option \<times> proc)" where
  "write_msg now lv v p =
     (let l = (logger p)\<lparr>buf := []\<rparr> in
      bind (if Head l then writeHeader l now (buf l) lv else Inr (buf l)) (\<lambda>b.
        let b' = (if Color l \<and> lv = ERROR
                  then b @ acolor_Apply [Red] @ fmt_Sprint v @ acolor_Clear @ [CHR 0x0A]
                  else b @ fmt_Sprint v @ [CHR 0x0A]);
            (w, err) = Writer_Write (out l) b'
        in Inr (err, \<lparr>logger = l\<lparr>buf := b', out := w\<rparr>, fmt_calls = fmt_calls p + 1\<rparr>)))"

definition Level :: "Logger \<Rightarrow> int" where
  \<comment> \<open>the same text in both files\<close>
  "Level l = level l"

definition SetLevel :: "int \<Rightarrow> Logger \<Rightarrow> Logger" where
  "SetLevel lv l = l\<lparr>level := lv\<rparr>"

definition Output :: "Logger \<Rightarrow> Writer" where
  \<comment> \<open>the same text in both files\<close>
  "Output l = out l"

definition SetOutput :: "Writer \<Rightarrow> Logger \<Rightarrow> Logger" where
  \<comment> \<open>the same text in both files\<close>
  "SetOutput w l = l\<lparr>out := w\<rparr>"

definition IsLevel :: "Logger \<Rightarrow> int \<Rightarrow> bool" where
  "IsLevel l lv \<longleftrightarrow> lv \<ge> level l"

definition Error :: "Time \<Rightarrow> val list \<Rightarrow> proc \<Rightarrow> outcome" where
  "Error now v p =
     (if ERROR < level (logger p) then Returned p
      else case write_msg now ERROR v p of
             Inl e \<Rightarrow> Panicked e
           | Inr (err, p') \<Rightarrow> Exited 1 p')"

definition Warn :: "Time \<Rightarrow> val list \<Rightarrow> proc \<Rightarrow> outcome" where
  "Warn now v p =
     (if WARN < level (logger p) then Returned p
      else case write_msg now WARN v p of
             Inl e \<Rightarrow> Panicked e
           | Inr (err, p') \<Rightarrow> Returned p')"

definition Info :: "Time \<Rightarrow> val list \<Rightarrow> proc \<Rightarrow> outcome" where
  "Info now v p =
     (if INFO < level (logger p) then Returned p
      else case write_msg now INFO v p of
             Inl e \<Rightarrow> Panicked e
           | Inr (err, p') \<Rightarrow> Returned p')"

definition Debug :: "Time \<Rightarrow> val list \<Rightarrow> proc \<Rightarrow> outcome" where
  "Debug now v p =
     (if DEBUG < level (logger p) then Returned p
      else case write_msg now DEBUG v p of
             Inl e \<Rightarrow> Panicked e
           | Inr (err, p') \<Rightarrow> Returned p')"

definition Trace :: "Time \<Rightarrow> val list \<Rightarrow> proc \<Rightarrow> outcome" where
  "Trace now v p =
     (if TRACE < level (logger p) then Returned p
      else case write_msg now TRACE v p of
             Inl e \<Rightarrow> Panicked e
           | Inr (err, p') \<Rightarrow> Returned p')"

subsection \<open>The second file: levels, header, write paths and the emit operations\<close>

definition LevelError :: int where "LevelError = 0"
definition LevelWarn :: int where "LevelWarn = 1"
definition LevelInfo :: int where "LevelInfo = 2"
definition LevelDebug :: int where "LevelDebug = 3"
definition LevelTrace :: int where "LevelTrace = 4"

definition std' :: Logger where
  "std' = New os_Stderr LevelTrace"

definition getHeaderLevel' :: "Logger \<Rightarrow> int \<Rightarrow> string" where
  "getHeaderLevel' l lv =
     (if Color l then
        (if lv = LevelInfo then acolor_Apply [Bold, Green] @ ''[INFO]  '' @ acolor_Clear
         else if lv = LevelWarn then acolor_Apply [Bold, Yellow] @ ''[WARN]  '' @ acolor_Clear
         else if lv = LevelTrace then acolor_Apply [Bold, White] @ ''[TRACE] '' @ acolor_Clear
         else if lv = LevelDebug then acolor_Apply [Bold, Cyan] @ ''[DEBUG] '' @ acolor_Clear
         else if lv = LevelError then acolor_Apply [Bold, Red] @ ''[ERROR] '' @ acolor_Clear
         else acolor_Apply [Bold, White] @ ''[]      '' @ acolor_Clear)
      else
        (if lv = LevelInfo then ''[INFO]  ''
         else if lv = LevelWarn then ''[WARN]  ''
         else if lv = LevelTrace then ''[TRACE] ''
         else if lv = LevelDebug then ''[DEBUG] ''
         else if lv = LevelError then ''[ERROR] ''
         else ''[]      ''))"

definition writeHeader' :: "Logger \<Rightarrow> Time \<Rightarrow> string \<Rightarrow> int \<Rightarrow> panic + string" where
  "writeHeader' l now0 b lv =
     (let b1 = (if HeadLevel l then b @ getHeaderLevel' l lv else b);
          b2 = (if Color l
                then (if lv = LevelError then b1 @ acolor_Apply [Red]
                      else b1 @ acolor_Apply [BlackHi])
                else b1)
      in bind
           (if HeadDate l \<or> HeadTime l then
              (let now = here (if UTC l then Time_UTC now0 else now0) in
               bind
                 (if HeadDate l then
                    bind (itoa b2 (day now) 2) (\<lambda>b.
                    bind (itoa (b @ ''.'') (month now) 2) (\<lambda>b.
                    bind (itoa (b @ ''.'') (year now) 4) (\<lambda>b.
                    Inr (b @ '' ''))))
                  else Inr b2)
                 (\<lambda>b3.
                    if HeadTime l then
                      bind (itoa b3 (hour now) 2) (\<lambda>b.
                      bind (itoa (b @ '':'') (minute now) 2) (\<lambda>b.
                      bind (itoa (b @ '':'') (sec now) 2) (\<lambda>b.
                      bind (if HeadMC l then itoa (b @ ''.'') (nanosecond now sdiv 1000) 6
                            else Inr b) (\<lambda>b.
                      Inr (b @ '' '')))))
                    else Inr b3))
            else Inr b2)
           (\<lambda>b4.
              if length b4 = 0 then Inr b4
              else Inr (if Color l then take (length b4 - 1) b4 @ '': '' @ acolor_Clear
                        else take (length b4 - 1) b4 @ '': '')))"

definition write_msg' :: "Time \<Rightarrow> int \<Rightarrow> val list \<Rightarrow> proc \<Rightarrow> panic + (error option \<times> proc)" where
  "write_msg' now lv v p =
     (let l = (logger p)\<lparr>buf := []\<rparr> in
      bind (if Head l then writeHeader' l now (buf l) lv else Inr (buf l)) (\<lambda>b.
        let b' = (if Color l \<and> lv = LevelError
                  then b @ acolor_Apply [Red] @ fmt_Sprint v @ acolor_Clear @ [CHR 0x0A]
                  else b @ fmt_Sprint v @ [CHR 0x0A]);
            (w, err) = Writer_Write (out l) b'
        in Inr (err, \<lparr>logger = l\<lparr>buf := b', out := w\<rparr>, fmt_calls = fmt_calls p + 1\<rparr>)))"

definition writef' ::
  "(string \<Rightarrow> val list \<Rightarrow> string) \<Rightarrow> Time \<Rightarrow> int \<Rightarrow> string \<Rightarrow> val list \<Rightarrow> proc
     \<Rightarrow> panic + (error option \<times> proc)" where
  "writef' sprintf now lv format v p =
     (let l = (logger p)\<lparr>buf := []\<rparr> in
      bind (if Head l then writeHeader' l now (buf l) lv else Inr (buf l)) (\<lambda>b.
        let b' = (if Color l \<and> lv = LevelError
                  then b @ acolor_Apply [Red] @ sprintf format v @ acolor_Clear @ [CHR 0x0A]
                  else b @ sprintf format v @ [CHR 0x0A]);
            (w, err) = Writer_Write (out l) b'
        in Inr (err, \<lparr>logger = l\<lparr>buf := b', out := w\<rparr>, fmt_calls = fmt_calls p + 1\<rparr>)))"

definition SetLevel' :: "int \<Rightarrow> Logger \<Rightarrow> Logger" where
  "SetLevel' lv l =
     (if lv < LevelError then l\<lparr>level := LevelError\<rparr>
      else if lv > LevelTrace then l\<lparr>level := LevelTrace\<rparr>
      else l\<lparr>level := lv\<rparr>)"

definition IsLevel' :: "Logger \<Rightarrow> int \<Rightarrow> bool" where
  "IsLevel' l lv \<longleftrightarrow> level l \<ge> lv"

definition Error' :: "Time \<Rightarrow> val list \<Rightarrow> proc \<Rightarrow> outcome" where
  "Error' now v p =
     (case write_msg' now LevelError v p of
        Inl e \<Rightarrow> Panicked e
      | Inr (err, p') \<Rightarrow> Exited 1 p')"

definition Warn' :: "Time \<Rightarrow> val list \<Rightarrow> proc \<Rightarrow> outcome" where
  "Warn' now v p =
     (if level (logger p) < LevelWarn then Returned p
      else case write_msg' now LevelWarn v p of
             Inl e \<Rightarrow> Panicked e
           | Inr (err, p') \<Rightarrow> Returned p')"

definition Info' :: "Time \<Rightarrow> val list \<Rightarrow> proc \<Rightarrow> outcome" where
  "Info' now v p =
     (if level (logger p) < LevelInfo then Returned p
      else case write_msg' now LevelInfo v p of
             Inl e \<Rightarrow> Panicked e
           | Inr (err, p') \<Rightarrow> Returned p')"

definition Debug' :: "Time \<Rightarrow> val list \<Rightarrow> proc \<Rightarrow> outcome" where
  "Debug' now v p =
     (if level (logger p) < LevelDebug then Returned p
      else case write_msg' now LevelDebug v p of
             Inl e \<Rightarrow> Panicked e
           | Inr (err, p') \<Rightarrow> Returned p')"

definition Trace' :: "Time \<Rightarrow> val list \<Rightarrow> proc \<Rightarrow> outcome" where
  "Trace' now v p =
     (if level (logger p) < LevelTrace then Returned p
      else case write_msg' now LevelTrace v p of
             Inl e \<Rightarrow> Panicked e
           | Inr (err, p') \<Rightarrow> Returned p')"

definition Errorf' ::
  "(string \<Rightarrow> val list \<Rightarrow> string) \<Rightarrow> Time \<Rightarrow> string \<Rightarrow> val list \<Rightarrow> proc \<Rightarrow> outcome" where
  "Errorf' sprintf now format v p =
     (case writef' sprintf now LevelError format v p of
        Inl e \<Rightarrow> Panicked e
      | Inr (err, p') \<Rightarrow> Exited 1 p')"

definition Warnf' ::
  "(string \<Rightarrow> val list \<Rightarrow> string) \<Rightarrow> Time \<Rightarrow> string \<Rightarrow> val list \<Rightarrow> proc \<Rightarrow> outcome" where
  "Warnf' sprintf now format v p =
     (if level (logger p) < LevelWarn then Returned p
      else case writef' sprintf now LevelWarn format v p of
             Inl e \<Rightarrow> Panicked e
           | Inr (err, p') \<Rightarrow> Returned p')"

definition Infof' ::
  "(string \<Rightarrow> val list \<Rightarrow> string) \<Rightarrow> Time \<Rightarrow> string \<Rightarrow> val list \<Rightarrow> proc \<Rightarrow> outcome" where
  "Infof' sprintf now format v p =
     (if level (logger p) < LevelInfo then Returned p
      else case writef' sprintf now LevelInfo format v p of
             Inl e \<Rightarrow> Panicked e
           | Inr (err, p') \<Rightarrow> Returned p')"

definition Debugf' ::
  "(string \<Rightarrow> val list \<Rightarrow> string) \<Rightarrow> Time \<Rightarrow> string \<Rightarrow> val list \<Rightarrow> proc \<Rightarrow> outcome" where
  "Debugf' sprintf now format v p =
     (if level (logger p) < LevelDebug then Returned p
      else case writef' sprintf now LevelDebug format v p of
             Inl e \<Rightarrow> Panicked e
           | Inr (err, p') \<Rightarrow> Returned p')"

definition Tracef' ::
  "(string \<Rightarrow> val list \<Rightarrow> string) \<Rightarrow> Time \<Rightarrow> string \<Rightarrow> val list \<Rightarrow> proc \<Rightarrow> outcome" where
  "Tracef' sprintf now format v p =
     (if level (logger p) < LevelTrace then Returned p
      else case writef' sprintf now LevelTrace format v p of
             Inl e \<Rightarrow> Panicked e
           | Inr (err, p') \<Rightarrow> Returned p')"

subsection \<open>Reference notions for the statements\<close>

definition zero_pad :: "nat \<Rightarrow> int \<Rightarrow> string" where
  \<comment> \<open>the decimal digits of a non-negative integer, with zeros on the left up to a minimum
      width; all digits are kept when there are more than \<open>w\<close>\<close>
  "zero_pad w i = replicate (w - length (decimal (nat i))) CHR ''0'' @ decimal (nat i)"

definition date_text :: "Civil \<Rightarrow> string" where
  \<comment> \<open>\<^verbatim>\<open>DD.MM.YYYY\<close> and a space\<close>
  "date_text c = zero_pad 2 (day c) @ ''.'' @ zero_pad 2 (month c) @ ''.''
                 @ zero_pad 4 (year c) @ '' ''"

definition clock_text :: "bool \<Rightarrow> Civil \<Rightarrow> string" where
  \<comment> \<open>\<^verbatim>\<open>HH:MM:SS\<close>, the microseconds \<^verbatim>\<open>.NNNNNN\<close> when asked for, and a space\<close>
  "clock_text mc c = zero_pad 2 (hour c) @ '':'' @ zero_pad 2 (minute c) @ '':''
                     @ zero_pad 2 (sec c)
                     @ (if mc then ''.'' @ zero_pad 6 (nanosecond c div 1000) else [])
                     @ '' ''"

definition stamp :: "Logger \<Rightarrow> Time \<Rightarrow> string" where
  \<comment> \<open>the date and time parts of the header that the configuration asks for\<close>
  "stamp l now =
     (let c = (if UTC l then in_utc now else here now)
      in (if HeadDate l then date_text c else []) @
         (if HeadTime l then clock_text (HeadMC l) c else []))"

definition finish_header :: "bool \<Rightarrow> string \<Rightarrow> string" where
  \<comment> \<open>the end of the header as the code computes it: nothing for an empty buffer, else the
      last byte dropped, colon and space appended, and the reset sequence when colour is on\<close>
  "finish_header c x =
     (if x = [] then [] else butlast x @ '': '' @ (if c then acolor_Clear else []))"

text \<open>
  The five severities by name, their fixed order (\<open>rank\<close>: ERROR highest, TRACE lowest) and
  the constant each file gives them.
\<close>

datatype Severity = SevError | SevWarn | SevInfo | SevDebug | SevTrace

fun rank :: "Severity \<Rightarrow> nat" where
  "rank SevError = 4"
| "rank SevWarn = 3"
| "rank SevInfo = 2"
| "rank SevDebug = 1"
| "rank SevTrace = 0"

fun Level_of :: "Severity \<Rightarrow> int" where
  "Level_of SevError = ERROR"
| "Level_of SevWarn = WARN"
| "Level_of SevInfo = INFO"
| "Level_of SevDebug = DEBUG"
| "Level_of SevTrace = TRACE"

fun LogLevel_of :: "Severity \<Rightarrow> int" where
  "LogLevel_of SevError = LevelError"
| "LogLevel_of SevWarn = LevelWarn"
| "LogLevel_of SevInfo = LevelInfo"
| "LogLevel_of SevDebug = LevelDebug"
| "LogLevel_of SevTrace = LevelTrace"

definition valid_LogLevel :: "int \<Rightarrow> bool" where
  "valid_LogLevel v \<longleftrightarrow> LevelError \<le> v \<and> v \<le> LevelTrace"

text \<open>
  The operations of the second file that change a logger or emit, as data, and their
  execution; \<open>reached\<close> is the state a call leaves behind when it returns or exits.
  \<^verbatim>\<open>Level\<close>, \<^verbatim>\<open>Output\<close> and the \<^verbatim>\<open>Is...\<close> tests only read.
\<close>

datatype op =
    SetLevelOp int | SetOutputOp Writer
  | ErrorOp "val list" | WarnOp "val list" | InfoOp "val list" | DebugOp "val list"
  | TraceOp "val list"
  | ErrorfOp string "val list" | WarnfOp string "val list" | InfofOp string "val list"
  | DebugfOp string "val list" | TracefOp string "val list"

fun run' :: "(string \<Rightarrow> val list \<Rightarrow> string) \<Rightarrow> Time \<Rightarrow> op \<Rightarrow> proc \<Rightarrow> outcome" where
  "run' sp now (SetLevelOp lv) p = Returned (p\<lparr>logger := SetLevel' lv (logger p)\<rparr>)"
| "run' sp now (SetOutputOp w) p = Returned (p\<lparr>logger := SetOutput w (logger p)\<rparr>)"
| "run' sp now (ErrorOp v) p = Error' now v p"
| "run' sp now (WarnOp v) p = Warn' now v p"
| "run' sp now (InfoOp v) p = Info' now v p"
| "run' sp now (DebugOp v) p = Debug' now v p"
| "run' sp now (TraceOp v) p = Trace' now v p"
| "run' sp now (ErrorfOp f v) p = Errorf' sp now f v p"
| "run' sp now (WarnfOp f v) p = Warnf' sp now f v p"
| "run' sp now (InfofOp f v) p = Infof' sp now f v p"
| "run' sp now (DebugfOp f v) p = Debugf' sp now f v p"
| "run' sp now (TracefOp f v) p = Tracef' sp now f v p"

fun reached :: "outcome \<Rightarrow> proc option" where
  "reached (Returned p) = Some p"
| "reached (Exited n p) = Some p"
| "reached (Panicked e) = None"

text \<open>
  A fixed instant for the examples: 2024-03-05T07:08:09Z, seen from a zone three hours
  east of UTC.
\<close>

definition civil0 :: Civil where
  "civil0 = \<lparr>year = 2024, month = 3, day = 5, hour = 7, minute = 8, sec = 9, nanosecond = 0\<rparr>"

definition now0 :: Time where
  "now0 = \<lparr>here = civil0\<lparr>hour := 10\<rparr>, in_utc = civil0\<rparr>"

text \<open>
  Two processes for the examples: a logger of \<^verbatim>\<open>log.go\<close> with the threshold \<^verbatim>\<open>ERROR\<close>,
  and a logger of the second file with the threshold \<^verbatim>\<open>LevelError\<close>.
\<close>

definition at_ERROR :: proc where
  "at_ERROR = \<lparr>logger = SetLevel ERROR std, fmt_calls = 0\<rparr>"

definition at_LevelError :: proc where
  "at_LevelError = \<lparr>logger = SetLevel' LevelError std', fmt_calls = 0\<rparr>"

section \<open>Properties\<close>

subsection \<open>itoa\<close>

lemma sdiv_nonneg: "0 \<le> (i::int) \<Longrightarrow> i sdiv 10 = i div 10"
  by (simp add: signed_divide_int_def sgn_if)

lemma byte_digit: "0 \<le> r \<Longrightarrow> r < 10 \<Longrightarrow> byte (48 + r) = char_of (48 + nat r)"
  by (simp add: byte_def nat_add_distrib)

lemma byte_last_digit:
  assumes "0 \<le> (i::int)"
  shows "byte (48 + i - (i sdiv 10) * 10) = char_of (48 + nat i mod 10)"
proof -
  have e: "48 + i - (i div 10) * 10 = 48 + i mod 10"
    by (simp add: minus_div_mult_eq_mod [symmetric] algebra_simps)
  have n: "nat (i mod 10) = nat i mod 10"
    using assms by (simp add: nat_mod_distrib)
  have "byte (48 + i - (i sdiv 10) * 10) = byte (48 + i mod 10)"
    using assms by (simp only: sdiv_nonneg e)
  also have "\<dots> = char_of (48 + nat (i mod 10))"
    by (rule byte_digit) simp_all
  finally show ?thesis by (simp only: n)
qed

lemma drop_update_here: "n < length b \<Longrightarrow> drop n (b[n := x]) = x # drop (Suc n) b"
  by (simp add: Cons_nth_drop_Suc [symmetric])

lemma char_of_48: "char_of (48::nat) = CHR ''0''"
  by code_simp

lemma length_decimal_pos: "0 < length (decimal n)"
  by (subst decimal.simps) simp

lemma decimal_small: "n < 10 \<Longrightarrow> decimal n = [char_of (48 + n)]"
  by (subst decimal.simps) simp

lemma decimal_large: "10 \<le> n \<Longrightarrow> decimal n = decimal (n div 10) @ [char_of (48 + n mod 10)]"
  by (subst decimal.simps) simp

lemma length_decimal_bound: "n < 10 ^ k \<Longrightarrow> 0 < k \<Longrightarrow> length (decimal n) \<le> k"
proof (induction k arbitrary: n)
  case 0
  then show ?case by simp
next
  case (Suc k)
  show ?case
  proof (cases "n < 10")
    case True
    then show ?thesis by (simp add: decimal_small)
  next
    case False
    then have k: "0 < k" using Suc.prems by (cases k) auto
    have "n div 10 < 10 ^ k" using Suc.prems by (simp add: less_mult_imp_div_less mult.commute)
    then have "length (decimal (n div 10)) \<le> k" using Suc.IH k by blast
    then show ?thesis using False by (simp add: decimal_large)
  qed
qed

lemma wrap_int_id: "- (2 ^ 63) \<le> x \<Longrightarrow> x < 2 ^ 63 \<Longrightarrow> wrap_int x = x"
  by (simp add: wrap_int_def)

lemma itoa_loop_pad:
  assumes "0 \<le> i" and "bp < int (length b)"
    and "int (length (decimal (nat i))) \<le> bp + 1" and "wid \<le> bp + 1"
    and "- (2 ^ 63) + int (length (decimal (nat i))) - 1 \<le> wid" and "wid < 2 ^ 63"
  shows "(case itoa_loop b bp i wid of
            Inl e \<Rightarrow> Inl e
          | Inr (b', bp', i') \<Rightarrow>
              if 0 \<le> bp' \<and> bp' < int (length b')
              then Inr (pre @ drop (nat bp') (b'[nat bp' := byte (48 + i')]))
              else Inl IndexOutOfRange)
         = Inr (pre @ replicate (nat wid - length (decimal (nat i))) CHR ''0''
                 @ decimal (nat i) @ drop (nat (bp + 1)) b)"
  using assms
proof (induction b bp i wid rule: itoa_loop.induct)
  case (1 b bp i wid)
  have bp0: "0 \<le> bp" using "1.prems"(3) length_decimal_pos [of "nat i"] by linarith
  show ?case
  proof (cases "i \<ge> 10 \<or> wid > 1")
    case False
    then have i: "i < 10" and w: "wid \<le> 1" by auto
    have d: "decimal (nat i) = [char_of (48 + nat i)]"
      using i "1.prems"(1) by (simp add: decimal_small)
    have "itoa_loop b bp i wid = Inr (b, bp, i)"
      using False by (subst itoa_loop.simps) simp
    then show ?thesis
      using bp0 "1.prems" i w d
      by (simp add: drop_update_here byte_digit nat_add_distrib)
  next
    case True
    let ?c = "byte (48 + i - (i sdiv 10) * 10)"
    let ?q = "i sdiv 10"
    have q: "?q = i div 10" using "1.prems"(1) by (rule sdiv_nonneg)
    have c: "?c = char_of (48 + nat i mod 10)" using "1.prems"(1) by (rule byte_last_digit)
    have c2: "byte (48 + i - (i div 10) * 10) = char_of (48 + nat i mod 10)"
      using c by (simp only: q)
    have nq: "nat (i div 10) = nat i div 10"
      using "1.prems"(1) by (simp add: nat_div_distrib)
    have len: "length (decimal (nat i)) = (if 10 \<le> i then Suc (length (decimal (nat i div 10))) else 1)"
      using "1.prems"(1) by (auto simp: decimal_large decimal_small)
    have dz: "i < 10 \<Longrightarrow> decimal (nat i div 10) = ''0''"
      using "1.prems"(1) by (simp add: decimal_small char_of_48)
    have wr: "wrap_int (wid - 1) = wid - 1"
    proof (rule wrap_int_id)
      have lp: "1 \<le> int (length (decimal (nat i div 10)))"
        using length_decimal_pos [of "nat i div 10"] by linarith
      show "- (2 ^ 63) \<le> wid - 1"
      proof (cases "10 \<le> i")
        case True
        then have "int (length (decimal (nat i))) = 1 + int (length (decimal (nat i div 10)))"
          using len by simp
        then show ?thesis using "1.prems"(5) lp by linarith
      next
        case False
        then show ?thesis using True by simp
      qed
      show "wid - 1 < 2 ^ 63" using "1.prems"(6) by simp
    qed
    have step: "itoa_loop b bp i wid = itoa_loop (b[nat bp := ?c]) (bp - 1) ?q (wid - 1)"
      using True bp0 "1.prems"(2) by (subst itoa_loop.simps) (simp add: wr)
    have IH: "(case itoa_loop (b[nat bp := ?c]) (bp - 1) ?q (wid - 1) of
            Inl e \<Rightarrow> Inl e
          | Inr (b', bp', i') \<Rightarrow>
              if 0 \<le> bp' \<and> bp' < int (length b')
              then Inr (pre @ drop (nat bp') (b'[nat bp' := byte (48 + i')]))
              else Inl IndexOutOfRange)
         = Inr (pre @ replicate (nat (wid - 1) - length (decimal (nat ?q))) CHR ''0''
                 @ decimal (nat ?q) @ drop (nat (bp - 1 + 1)) (b[nat bp := ?c]))"
    proof (rule "1.IH" [unfolded wr])
      show "10 \<le> i \<or> 1 < wid" by (rule True)
      show "0 \<le> bp \<and> bp < int (length b)" using bp0 "1.prems"(2) by simp
      show "0 \<le> ?q" using "1.prems"(1) q by simp
      show "bp - 1 < int (length (b[nat bp := ?c]))" using "1.prems"(2) by simp
      show "int (length (decimal (nat ?q))) \<le> bp - 1 + 1"
        using "1.prems"(3,4) True len dz by (auto simp: q nq split: if_splits)
      show "wid - 1 \<le> bp - 1 + 1" using "1.prems"(4) by simp
      show "- (2 ^ 63) + int (length (decimal (nat ?q))) - 1 \<le> wid - 1"
        using "1.prems"(5) True len dz by (auto simp: q nq split: if_splits)
      show "wid - 1 < 2 ^ 63" using "1.prems"(6) by simp
    qed
    have dr: "drop (nat (bp - 1 + 1)) (b[nat bp := ?c]) = ?c # drop (nat (bp + 1)) b"
      using bp0 "1.prems"(2) by (simp add: drop_update_here nat_add_distrib)
    have pad: "replicate (nat (wid - 1) - length (decimal (nat i div 10))) CHR ''0''
          @ decimal (nat i div 10) @ [char_of (48 + nat i mod 10)]
        = replicate (nat wid - length (decimal (nat i))) CHR ''0'' @ decimal (nat i)"
    proof (cases "10 \<le> i")
      case True
      then have "decimal (nat i) = decimal (nat i div 10) @ [char_of (48 + nat i mod 10)]"
        by (simp add: decimal_large)
      moreover have "nat (wid - 1) - length (decimal (nat i div 10))
          = nat wid - Suc (length (decimal (nat i div 10)))"
        by (simp add: nat_diff_distrib')
      ultimately show ?thesis by simp
    next
      case False
      then have w: "1 < wid" using True by simp
      have di: "decimal (nat i) = [char_of (48 + nat i mod 10)]"
        using False "1.prems"(1) by (simp add: decimal_small)
      have "nat (wid - 1) - 1 = nat wid - 2" by (simp add: nat_diff_distrib')
      moreover have "Suc (nat wid - 2) = nat wid - 1" using w by simp
      ultimately have "replicate (nat (wid - 1) - 1) CHR ''0'' @ ''0'' = replicate (nat wid - 1) CHR ''0''"
        by (metis replicate_Suc replicate_append_same)
      then show ?thesis using False dz by (simp add: di)
    qed
    have "itoa_loop b bp i wid = itoa_loop (b[nat bp := char_of (48 + nat i mod 10)]) (bp - 1) (i div 10) (wid - 1)"
      using step by (simp only: q c2)
    moreover note IH [unfolded dr, unfolded q, unfolded c2 nq]
    ultimately show ?thesis
      using pad by simp
  qed
qed


lemma itoa_pad:
  assumes "0 \<le> i" and "i < 10 ^ 20" and "- (2 ^ 63) + 19 \<le> wid" and "wid \<le> 20"
  shows "itoa pre i wid
         = Inr (pre @ replicate (nat wid - length (decimal (nat i))) CHR ''0'' @ decimal (nat i))"
proof -
  have "nat i < 10 ^ 20" using assms(1,2) by (simp add: nat_less_iff)
  then have len: "length (decimal (nat i)) \<le> 20"
    by (rule length_decimal_bound) simp
  have "(case itoa_loop (replicate 20 (CHR 0x00)) 19 i wid of
            Inl e \<Rightarrow> Inl e
          | Inr (b', bp', i') \<Rightarrow>
              if 0 \<le> bp' \<and> bp' < int (length b')
              then Inr (pre @ drop (nat bp') (b'[nat bp' := byte (48 + i')]))
              else Inl IndexOutOfRange)
         = Inr (pre @ replicate (nat wid - length (decimal (nat i))) CHR ''0''
                 @ decimal (nat i) @ drop (nat (19 + 1)) (replicate 20 (CHR 0x00)))"
    using assms len by (intro itoa_loop_pad) simp_all
  then show ?thesis by (simp add: itoa_def)
qed

lemma itoa_loop_wide:
  assumes "- 1 \<le> bp" and "bp < int (length b)" and "bp + 1 < wid" and "wid < 2 ^ 63"
  shows "(case itoa_loop b bp i wid of
            Inl e \<Rightarrow> Inl e
          | Inr (b', bp', i') \<Rightarrow>
              if 0 \<le> bp' \<and> bp' < int (length b')
              then Inr (pre @ drop (nat bp') (b'[nat bp' := byte (48 + i')]))
              else Inl IndexOutOfRange)
         = Inl IndexOutOfRange"
  using assms
proof (induction b bp i wid rule: itoa_loop.induct)
  case (1 b bp i wid)
  show ?case
  proof (cases "0 \<le> bp")
    case False
    then show ?thesis by (subst itoa_loop.simps) simp
  next
    case True
    then have cond: "i \<ge> 10 \<or> wid > 1" using "1.prems"(3) by simp
    have wr: "wrap_int (wid - 1) = wid - 1"
      using True "1.prems"(3,4) by (intro wrap_int_id) simp_all
    have step: "itoa_loop b bp i wid
        = itoa_loop (b[nat bp := byte (48 + i - (i sdiv 10) * 10)]) (bp - 1) (i sdiv 10) (wid - 1)"
      using cond True "1.prems"(2) by (subst itoa_loop.simps) (simp add: wr)
    show ?thesis
      unfolding step
    proof (rule "1.IH" [unfolded wr])
      show "10 \<le> i \<or> 1 < wid" by (rule cond)
      show "0 \<le> bp \<and> bp < int (length b)" using True "1.prems"(2) by simp
      show "- 1 \<le> bp - 1" using True by simp
      show "bp - 1 < int (length (b[nat bp := byte (48 + i - (i sdiv 10) * 10)]))"
        using "1.prems"(2) by simp
      show "bp - 1 + 1 < wid - 1" using "1.prems"(3) by simp
      show "wid - 1 < 2 ^ 63" using "1.prems"(4) by simp
    qed
  qed
qed

lemma itoa_wide:
  assumes "20 < wid" and "wid < 2 ^ 63"
  shows "itoa pre i wid = Inl IndexOutOfRange"
proof -
  have "(case itoa_loop (replicate 20 (CHR 0x00)) 19 i wid of
            Inl e \<Rightarrow> Inl e
          | Inr (b', bp', i') \<Rightarrow>
              if 0 \<le> bp' \<and> bp' < int (length b')
              then Inr (pre @ drop (nat bp') (b'[nat bp' := byte (48 + i')]))
              else Inl IndexOutOfRange)
         = Inl IndexOutOfRange"
    using assms by (intro itoa_loop_wide) simp_all
  then show ?thesis by (simp add: itoa_def)
qed

subsection \<open>The header\<close>

lemma sdiv_nonneg_pos: "0 \<le> (i::int) \<Longrightarrow> 0 < k \<Longrightarrow> i sdiv k = i div k"
  by (simp add: signed_divide_int_def sgn_if)

lemma itoa_zero_pad:
  assumes "0 \<le> i" and "i < 2 ^ 63" and "1 \<le> wid" and "wid \<le> 20"
  shows "itoa pre i wid = Inr (pre @ zero_pad (nat wid) i)"
proof -
  have "i < 10 ^ 20" using assms(2) by simp
  moreover have "- (2 ^ 63) + 19 \<le> wid" using assms(3) by simp
  ultimately show ?thesis
    using assms(1,4) by (simp add: itoa_pad zero_pad_def)
qed


lemma date_part:
  assumes "valid_Civil c"
  shows "bind (itoa b (day c) 2) (\<lambda>b.
         bind (itoa (b @ ''.'') (month c) 2) (\<lambda>b.
         bind (itoa (b @ ''.'') (year c) 4) (\<lambda>b.
         Inr (b @ '' '')))) = Inr (b @ date_text c)"
proof -
  have d: "itoa b (day c) 2 = Inr (b @ zero_pad 2 (day c))" for b
    using assms itoa_zero_pad [of "day c" 2 b] by (simp add: valid_Civil_def)
  have m: "itoa b (month c) 2 = Inr (b @ zero_pad 2 (month c))" for b
    using assms itoa_zero_pad [of "month c" 2 b] by (simp add: valid_Civil_def)
  have y: "itoa b (year c) 4 = Inr (b @ zero_pad 4 (year c))" for b
    using assms itoa_zero_pad [of "year c" 4 b] by (simp add: valid_Civil_def)
  show ?thesis
    by (simp add: d m y bind_def date_text_def)
qed


lemma clock_part:
  assumes "valid_Civil c"
  shows "bind (itoa b (hour c) 2) (\<lambda>b.
         bind (itoa (b @ '':'') (minute c) 2) (\<lambda>b.
         bind (itoa (b @ '':'') (sec c) 2) (\<lambda>b.
         bind (if mc then itoa (b @ ''.'') (nanosecond c sdiv 1000) 6 else Inr b) (\<lambda>b.
         Inr (b @ '' ''))))) = Inr (b @ clock_text mc c)"
proof -
  have h: "itoa b (hour c) 2 = Inr (b @ zero_pad 2 (hour c))" for b
    using assms itoa_zero_pad [of "hour c" 2 b] by (simp add: valid_Civil_def)
  have m: "itoa b (minute c) 2 = Inr (b @ zero_pad 2 (minute c))" for b
    using assms itoa_zero_pad [of "minute c" 2 b] by (simp add: valid_Civil_def)
  have s: "itoa b (sec c) 2 = Inr (b @ zero_pad 2 (sec c))" for b
    using assms itoa_zero_pad [of "sec c" 2 b] by (simp add: valid_Civil_def)
  have ns: "0 \<le> nanosecond c" "nanosecond c < 1000000000"
    using assms by (simp_all add: valid_Civil_def)
  have q: "nanosecond c sdiv 1000 = nanosecond c div 1000"
    using ns(1) by (simp add: sdiv_nonneg_pos)
  have "nanosecond c div 1000 \<le> 999999999 div 1000"
    using ns by (intro zdiv_mono1) simp_all
  moreover have "0 \<le> nanosecond c div 1000"
    using ns(1) by (simp add: pos_imp_zdiv_nonneg_iff)
  ultimately have n: "0 \<le> nanosecond c div 1000" "nanosecond c div 1000 < 2 ^ 63"
    by simp_all
  have u: "itoa b (nanosecond c div 1000) 6 = Inr (b @ zero_pad 6 (nanosecond c div 1000))" for b
    using n itoa_zero_pad [of "nanosecond c div 1000" 6 b] by simp
  show ?thesis
    by (simp add: h m s q u bind_def clock_text_def)
qed


lemma here_UTC: "here (if UTC l then Time_UTC now else now) = (if UTC l then in_utc now else here now)"
  by (simp add: Time_UTC_def)

lemma stamp_part:
  assumes "valid_Time now"
  shows "(if HeadDate l \<or> HeadTime l then
              (let now = here (if UTC l then Time_UTC now else now) in
               bind
                 (if HeadDate l then
                    bind (itoa b2 (day now) 2) (\<lambda>b.
                    bind (itoa (b @ ''.'') (month now) 2) (\<lambda>b.
                    bind (itoa (b @ ''.'') (year now) 4) (\<lambda>b.
                    Inr (b @ '' ''))))
                  else Inr b2)
                 (\<lambda>b3.
                    if HeadTime l then
                      bind (itoa b3 (hour now) 2) (\<lambda>b.
                      bind (itoa (b @ '':'') (minute now) 2) (\<lambda>b.
                      bind (itoa (b @ '':'') (sec now) 2) (\<lambda>b.
                      bind (if HeadMC l then itoa (b @ ''.'') (nanosecond now sdiv 1000) 6
                            else Inr b) (\<lambda>b.
                      Inr (b @ '' '')))))
                    else Inr b3))
            else Inr b2) = Inr (b2 @ stamp l now)"
proof -
  have c: "valid_Civil (if UTC l then in_utc now else here now)"
    using assms by (simp add: valid_Time_def)
  show ?thesis
    unfolding Let_def here_UTC date_part [OF c] clock_part [OF c]
    by (cases "HeadDate l"; cases "HeadTime l") (simp_all add: bind_def stamp_def Let_def)
qed

lemma finish_part:
  "(if length b4 = 0 then Inr b4
    else Inr (if c then take (length b4 - 1) b4 @ '': '' @ acolor_Clear
              else take (length b4 - 1) b4 @ '': '')) = (Inr (finish_header c b4) :: panic + string)"
proof -
  have "take (length b4 - 1) b4 = butlast b4" by (rule butlast_conv_take [symmetric])
  then show ?thesis by (simp add: finish_header_def)
qed

lemma writeHeader_eq:
  assumes "valid_Time now"
  shows "writeHeader l now b lv =
     Inr (finish_header (Color l) (b @ (if HeadLevel l then getHeaderLevel l lv else [])
            @ (if Color l then acolor_Apply [if lv = ERROR then Red else BlackHi] else [])
            @ stamp l now))"
  unfolding writeHeader_def stamp_part [OF assms] finish_part
  by (simp add: Let_def bind_def)



lemma writeHeader'_eq:
  assumes "valid_Time now"
  shows "writeHeader' l now b lv =
     Inr (finish_header (Color l) (b @ (if HeadLevel l then getHeaderLevel' l lv else [])
            @ (if Color l then acolor_Apply [if lv = LevelError then Red else BlackHi] else [])
            @ stamp l now))"
  unfolding writeHeader'_def stamp_part [OF assms] finish_part
  by (simp add: Let_def bind_def)

subsection \<open>The write path\<close>

lemmas Level_defs = TRACE_def DEBUG_def INFO_def WARN_def ERROR_def
lemmas LogLevel_defs = LevelError_def LevelWarn_def LevelInfo_def LevelDebug_def LevelTrace_def

lemma write_msg_ok:
  assumes "valid_Time now"
  shows "\<exists>b'. write_msg now lv v p =
           Inr (failure (out (logger p)),
                \<lparr>logger = (logger p)\<lparr>out := (out (logger p))\<lparr>written := written (out (logger p)) @ [b']\<rparr>,
                                      buf := b'\<rparr>,
                 fmt_calls = fmt_calls p + 1\<rparr>)"
proof -
  let ?l = "(logger p)\<lparr>buf := []\<rparr>"
  obtain h where h: "(if Head ?l then writeHeader ?l now (buf ?l) lv else Inr (buf ?l)) = Inr h"
    using writeHeader_eq [OF assms, of ?l "buf ?l" lv] by (cases "Head ?l") auto
  let ?b = "if Color ?l \<and> lv = ERROR
            then h @ acolor_Apply [Red] @ fmt_Sprint v @ acolor_Clear @ [CHR 0x0A]
            else h @ fmt_Sprint v @ [CHR 0x0A]"
  have "write_msg now lv v p =
           Inr (failure (out (logger p)),
                \<lparr>logger = (logger p)\<lparr>out := (out (logger p))\<lparr>written := written (out (logger p)) @ [?b]\<rparr>,
                                      buf := ?b\<rparr>,
                 fmt_calls = fmt_calls p + 1\<rparr>)"
    unfolding write_msg_def Let_def h by (simp add: bind_def Writer_Write_def)
  then show ?thesis by (rule exI)
qed

lemma write_msg'_ok:
  assumes "valid_Time now"
  shows "\<exists>b'. write_msg' now lv v p =
           Inr (failure (out (logger p)),
                \<lparr>logger = (logger p)\<lparr>out := (out (logger p))\<lparr>written := written (out (logger p)) @ [b']\<rparr>,
                                      buf := b'\<rparr>,
                 fmt_calls = fmt_calls p + 1\<rparr>)"
proof -
  let ?l = "(logger p)\<lparr>buf := []\<rparr>"
  obtain h where h: "(if Head ?l then writeHeader' ?l now (buf ?l) lv else Inr (buf ?l)) = Inr h"
    using writeHeader'_eq [OF assms, of ?l "buf ?l" lv] by (cases "Head ?l") auto
  let ?b = "if Color ?l \<and> lv = LevelError
            then h @ acolor_Apply [Red] @ fmt_Sprint v @ acolor_Clear @ [CHR 0x0A]
            else h @ fmt_Sprint v @ [CHR 0x0A]"
  have "write_msg' now lv v p =
           Inr (failure (out (logger p)),
                \<lparr>logger = (logger p)\<lparr>out := (out (logger p))\<lparr>written := written (out (logger p)) @ [?b]\<rparr>,
                                      buf := ?b\<rparr>,
                 fmt_calls = fmt_calls p + 1\<rparr>)"
    unfolding write_msg'_def Let_def h by (simp add: bind_def Writer_Write_def)
  then show ?thesis by (rule exI)
qed

lemma Sprint_string: "fmt_Sprint [VString s] = s"
  by simp



subsection \<open>Evaluating decimals\<close>

lemma digit_chars:
  "char_of (48::nat) = CHR ''0''" "char_of (49::nat) = CHR ''1''" "char_of (50::nat) = CHR ''2''"
  "char_of (51::nat) = CHR ''3''" "char_of (52::nat) = CHR ''4''" "char_of (53::nat) = CHR ''5''"
  "char_of (54::nat) = CHR ''6''" "char_of (55::nat) = CHR ''7''" "char_of (56::nat) = CHR ''8''"
  "char_of (57::nat) = CHR ''9''"
  by code_simp+

subsection \<open>Header and line for times read from the clock\<close>

lemma valid_now0: "valid_Time now0"
  by (simp add: valid_Time_def valid_Civil_def now0_def civil0_def)

lemma zero_pad_eval:
  "zero_pad 2 5 = ''05''" "zero_pad 2 3 = ''03''" "zero_pad 4 2024 = ''2024''"
  "zero_pad 2 7 = ''07''" "zero_pad 2 8 = ''08''" "zero_pad 2 9 = ''09''"
  "zero_pad 2 10 = ''10''"
  by (simp_all add: zero_pad_def decimal.simps digit_chars)

lemma finish_header_stamp:
  "s \<noteq> [] \<Longrightarrow> finish_header c (pre @ s) = pre @ butlast s @ '': '' @ (if c then acolor_Clear else [])"
  by (simp add: finish_header_def butlast_append)

lemma stamp_ends_with_space:
  assumes "HeadDate l \<or> HeadTime l"
  shows "stamp l now \<noteq> [] \<and> last (stamp l now) = CHR '' ''"
  using assms by (auto simp: stamp_def date_text_def clock_text_def Let_def)

lemma header_with_stamp:
  assumes "HeadDate l \<or> HeadTime l" and "valid_Time now"
  shows "writeHeader l now [] lv =
     Inr ((if HeadLevel l then getHeaderLevel l lv else [])
          @ (if Color l then acolor_Apply [if lv = ERROR then Red else BlackHi] else [])
          @ butlast (stamp l now) @ '': '' @ (if Color l then acolor_Clear else []))"
proof -
  have s: "stamp l now \<noteq> []" using stamp_ends_with_space [OF assms(1)] by simp
  have "finish_header (Color l)
          (((if HeadLevel l then getHeaderLevel l lv else [])
            @ (if Color l then acolor_Apply [if lv = ERROR then Red else BlackHi] else []))
           @ stamp l now)
        = ((if HeadLevel l then getHeaderLevel l lv else [])
            @ (if Color l then acolor_Apply [if lv = ERROR then Red else BlackHi] else []))
          @ butlast (stamp l now) @ '': '' @ (if Color l then acolor_Clear else [])"
    using s by (rule finish_header_stamp)
  then show ?thesis by (simp add: writeHeader_eq [OF assms(2)])
qed

lemma header'_with_stamp:
  assumes "HeadDate l \<or> HeadTime l" and "valid_Time now"
  shows "writeHeader' l now [] lv =
     Inr ((if HeadLevel l then getHeaderLevel' l lv else [])
          @ (if Color l then acolor_Apply [if lv = LevelError then Red else BlackHi] else [])
          @ butlast (stamp l now) @ '': '' @ (if Color l then acolor_Clear else []))"
proof -
  have s: "stamp l now \<noteq> []" using stamp_ends_with_space [OF assms(1)] by simp
  have "finish_header (Color l)
          (((if HeadLevel l then getHeaderLevel' l lv else [])
            @ (if Color l then acolor_Apply [if lv = LevelError then Red else BlackHi] else []))
           @ stamp l now)
        = ((if HeadLevel l then getHeaderLevel' l lv else [])
            @ (if Color l then acolor_Apply [if lv = LevelError then Red else BlackHi] else []))
          @ butlast (stamp l now) @ '': '' @ (if Color l then acolor_Clear else [])"
    using s by (rule finish_header_stamp)
  then show ?thesis by (simp add: writeHeader'_eq [OF assms(2)])
qed

lemma header_plain_without_stamp:
  assumes "\<not> Color l" and "\<not> HeadDate l" and "\<not> HeadTime l"
  shows "writeHeader l now [] lv
         = Inr (if HeadLevel l then butlast (getHeaderLevel l lv) @ '': '' else [])"
    and "writeHeader' l now [] lv
         = Inr (if HeadLevel l then butlast (getHeaderLevel' l lv) @ '': '' else [])"
  using assms
  by (simp_all add: writeHeader_def writeHeader'_def getHeaderLevel_def getHeaderLevel'_def
      bind_def)

lemma header_color_without_stamp:
  assumes "Color l" and "\<not> HeadDate l" and "\<not> HeadTime l"
  shows "writeHeader l now [] lv
         = Inr ((if HeadLevel l then getHeaderLevel l lv else [])
                @ butlast (acolor_Apply [if lv = ERROR then Red else BlackHi])
                @ '': '' @ acolor_Clear)"
    and "writeHeader' l now [] lv
         = Inr ((if HeadLevel l then getHeaderLevel' l lv else [])
                @ butlast (acolor_Apply [if lv = LevelError then Red else BlackHi])
                @ '': '' @ acolor_Clear)"
  using assms
  by (simp_all add: writeHeader_def writeHeader'_def bind_def acolor_Apply_def butlast_append)

lemma write_msg_sink:
  assumes "valid_Time now"
  shows "\<exists>p'. write_msg now lv v p = Inr (failure (out (logger p)), p') \<and>
              written (out (logger p')) = written (out (logger p)) @ [buf (logger p')] \<and>
              fmt_calls p' = fmt_calls p + 1"
proof -
  obtain b' where "write_msg now lv v p =
           Inr (failure (out (logger p)),
                \<lparr>logger = (logger p)\<lparr>out := (out (logger p))\<lparr>written := written (out (logger p)) @ [b']\<rparr>,
                                      buf := b'\<rparr>,
                 fmt_calls = fmt_calls p + 1\<rparr>)"
    using write_msg_ok [OF assms] by blast
  then show ?thesis by simp
qed

lemma write_msg'_sink:
  assumes "valid_Time now"
  shows "\<exists>p'. write_msg' now lv v p = Inr (failure (out (logger p)), p') \<and>
              written (out (logger p')) = written (out (logger p)) @ [buf (logger p')] \<and>
              fmt_calls p' = fmt_calls p + 1"
proof -
  obtain b' where "write_msg' now lv v p =
           Inr (failure (out (logger p)),
                \<lparr>logger = (logger p)\<lparr>out := (out (logger p))\<lparr>written := written (out (logger p)) @ [b']\<rparr>,
                                      buf := b'\<rparr>,
                 fmt_calls = fmt_calls p + 1\<rparr>)"
    using write_msg'_ok [OF assms] by blast
  then show ?thesis by simp
qed

lemma writef'_as_write: "writef' sp now lv f v p = write_msg' now lv [VString (sp f v)] p"
  by (simp only: writef'_def write_msg'_def Sprint_string)

subsection \<open>The threshold under the operations of the second file\<close>

lemma write_msg'_level:
  "write_msg' now lv v p = Inr (err, p') \<Longrightarrow> level (logger p') = level (logger p)"
  by (auto simp: write_msg'_def Let_def bind_def Writer_Write_def split: sum.splits if_splits)

lemma writef'_level:
  "writef' sp now lv f v p = Inr (err, p') \<Longrightarrow> level (logger p') = level (logger p)"
  by (auto simp: writef'_def Let_def bind_def Writer_Write_def split: sum.splits if_splits)

lemmas emit_defs = Error_def Warn_def Info_def Debug_def Trace_def

lemmas emit'_defs = Error'_def Warn'_def Info'_def Debug'_def Trace'_def
  Errorf'_def Warnf'_def Infof'_def Debugf'_def Tracef'_def

lemma run'_level:
  assumes "reached (run' sp now x p) = Some p'" and "\<And>lv. x \<noteq> SetLevelOp lv"
  shows "level (logger p') = level (logger p)"
  using assms
  by (cases x)
     (auto simp: emit'_defs SetOutput_def split: sum.splits if_splits
           dest: write_msg'_level writef'_level)

lemma write_msg'_reaches:
  assumes "valid_Time now"
  shows "\<exists>y. reached (case write_msg' now lv v p of
                    Inl e \<Rightarrow> Panicked e | Inr (err, p') \<Rightarrow> Returned p') = Some y"
    and "\<exists>y. reached (case write_msg' now lv v p of
                    Inl e \<Rightarrow> Panicked e | Inr (err, p') \<Rightarrow> Exited 1 p') = Some y"
proof -
  obtain p' where "write_msg' now lv v p = Inr (failure (out (logger p)), p')"
    using write_msg'_sink [OF assms, of lv v p] by blast
  then show "\<exists>y. reached (case write_msg' now lv v p of
                    Inl e \<Rightarrow> Panicked e | Inr (err, p') \<Rightarrow> Returned p') = Some y"
    and "\<exists>y. reached (case write_msg' now lv v p of
                    Inl e \<Rightarrow> Panicked e | Inr (err, p') \<Rightarrow> Exited 1 p') = Some y"
    by simp_all
qed

lemma run'_reaches:
  assumes "valid_Time now"
  shows "reached (run' sp now x p) \<noteq> None"
  by (cases x)
     (simp_all add: emit'_defs writef'_as_write write_msg'_reaches [OF assms])

lemma New_level: "level (New w v) = v"
  by (simp add: New_def)

lemma SetLevel'_valid: "valid_LogLevel (level (SetLevel' v l))"
  by (simp add: SetLevel'_def valid_LogLevel_def LogLevel_defs)

subsection \<open>Escape bytes\<close>

lemmas acolor_defs = acolor_Apply_def acolor_Clear_def

lemma digit_not_ESC: "d < 10 \<Longrightarrow> char_of (48 + d) \<noteq> ESC" for d :: nat
proof -
  assume "d < 10"
  then have "d \<in> {0, 1, 2, 3, 4, 5, 6, 7, 8, 9}" by auto
  then show ?thesis by (auto simp: digit_chars ESC_def)
qed

lemma decimal_no_ESC: "ESC \<notin> set (decimal n)"
proof (induction n rule: decimal.induct)
  case (1 n)
  show ?case
  proof (cases "n < 10")
    case True
    then show ?thesis using digit_not_ESC [of n] by (auto simp: decimal_small)
  next
    case False
    then show ?thesis
      using "1.IH" digit_not_ESC [of "n mod 10"] by (auto simp: decimal_large)
  qed
qed

lemma zero_pad_no_ESC: "ESC \<notin> set (zero_pad w i)"
  using decimal_no_ESC by (auto simp: zero_pad_def ESC_def)

lemma stamp_no_ESC: "ESC \<notin> set (stamp l now)"
  using zero_pad_no_ESC
  by (auto simp: stamp_def date_text_def clock_text_def Let_def ESC_def)

lemma plain_tag_no_ESC: "\<not> Color l \<Longrightarrow> ESC \<notin> set (getHeaderLevel l lv)"
  by (simp add: getHeaderLevel_def ESC_def)

lemma finish_plain_no_ESC: "ESC \<notin> set x \<Longrightarrow> ESC \<notin> set (finish_header False x)"
  by (auto simp: finish_header_def ESC_def dest: in_set_butlastD)

lemma plain_line_no_escape:
  assumes "\<not> Color (logger p)" and "valid_Time now" and "ESC \<notin> set (fmt_Sprint v)"
    and "write_msg now lv v p = Inr (err, p')"
  shows "ESC \<notin> set (buf (logger p'))"
proof -
  let ?l = "(logger p)\<lparr>buf := []\<rparr>"
  let ?h = "finish_header False ((if HeadLevel ?l then getHeaderLevel ?l lv else []) @ stamp ?l now)"
  have h: "ESC \<notin> set ?h"
    using assms(1) by (intro finish_plain_no_ESC) (simp add: plain_tag_no_ESC stamp_no_ESC)
  have "buf (logger p') = (if Head ?l then ?h else []) @ fmt_Sprint v @ [CHR 0x0A]"
    using assms(1,4)
    by (auto simp: write_msg_def Let_def writeHeader_eq [OF assms(2)] bind_def Writer_Write_def)
  then show ?thesis using h assms(3) by (auto simp: ESC_def)
qed

lemma colored_line_with_stamp:
  assumes "Color (logger p)" and "Head (logger p)" and "HeadDate (logger p) \<or> HeadTime (logger p)"
    and "valid_Time now" and "write_msg now lv v p = Inr (err, p')"
  shows "buf (logger p') =
     (if HeadLevel (logger p) then getHeaderLevel (logger p) lv else [])
     @ acolor_Apply [if lv = ERROR then Red else BlackHi]
     @ butlast (stamp (logger p) now) @ '': '' @ acolor_Clear
     @ (if lv = ERROR then acolor_Apply [Red] @ fmt_Sprint v @ acolor_Clear else fmt_Sprint v)
     @ [CHR 0x0A]"
proof -
  let ?l = "(logger p)\<lparr>buf := []\<rparr>"
  have st: "stamp ?l now = stamp (logger p) now" by (simp add: stamp_def Let_def)
  have tg: "getHeaderLevel ?l x = getHeaderLevel (logger p) x" for x
    by (simp add: getHeaderLevel_def)
  have h: "writeHeader ?l now [] lv =
     Inr ((if HeadLevel ?l then getHeaderLevel ?l lv else [])
          @ (if Color ?l then acolor_Apply [if lv = ERROR then Red else BlackHi] else [])
          @ butlast (stamp ?l now) @ '': '' @ (if Color ?l then acolor_Clear else []))"
    using assms(3,4) by (intro header_with_stamp) simp_all
  show ?thesis
    using assms(1,2,5)
    by (auto simp: write_msg_def Let_def h st tg bind_def Writer_Write_def)
qed

section \<open>Claims\<close>

text \<open>
  C1. For every severity L and every threshold T among ERROR, WARN, INFO, DEBUG and TRACE,
  \<^verbatim>\<open>IsLevel(L)\<close> on a logger whose threshold is T is true exactly when L is at least as
  severe as T in the order ERROR > WARN > INFO > DEBUG > TRACE. This holds in both files,
  whose constants are numbered in opposite directions.
\<close>

theorem IsLevel_iff_severity:
  "IsLevel (l\<lparr>level := Level_of T\<rparr>) (Level_of L) = (rank T \<le> rank L) \<and>
   IsLevel' (l\<lparr>level := LogLevel_of T\<rparr>) (LogLevel_of L) = (rank T \<le> rank L)"
  by (cases T; cases L) (simp_all add: IsLevel_def IsLevel'_def Level_defs LogLevel_defs)

text \<open>
  C2. The claim: whenever the header steps wrote anything, the header's trailing space is
  replaced by colon and space (and the reset sequence when colour is on), also when colour
  is on or the level tag is the only part; and with every sub-switch off the header is
  empty. The code drops the last byte of the buffer whatever it is. With colour on and
  neither date nor time, that byte is the \<^verbatim>\<open>m\<close> that ends the colour escape of step 2
  (lemma \<open>header_color_without_stamp\<close>): the header is a cut escape sequence followed by
  colon, space and reset, with the tag before it when the tag is on, in both files. With
  date or time on, and with colour off, the claim holds (lemmas \<open>header_with_stamp\<close> and
  \<open>header_plain_without_stamp\<close>).
\<close>

theorem header_chops_escape:
  "writeHeader ((New os_Stderr DEBUG)\<lparr>HeadLevel := False, HeadDate := False, HeadTime := False\<rparr>)
       now0 [] INFO
     = Inr (ESC # ''[90: '' @ ESC # ''[0m'') \<and>
   writeHeader ((New os_Stderr DEBUG)\<lparr>HeadDate := False, HeadTime := False\<rparr>) now0 [] INFO
     = Inr (ESC # ''[1;32m[INFO]  '' @ ESC # ''[0m'' @ ESC # ''[90: '' @ ESC # ''[0m'') \<and>
   writeHeader' ((New os_Stderr LevelTrace)\<lparr>HeadLevel := False, HeadDate := False, HeadTime := False\<rparr>)
       now0 [] LevelInfo
     = Inr (ESC # ''[90: '' @ ESC # ''[0m'') \<and>
   writeHeader' ((New os_Stderr LevelTrace)\<lparr>HeadDate := False, HeadTime := False\<rparr>) now0 [] LevelInfo
     = Inr (ESC # ''[1;32m[INFO]  '' @ ESC # ''[0m'' @ ESC # ''[90: '' @ ESC # ''[0m'')"
  by (simp add: writeHeader_def writeHeader'_def getHeaderLevel_def getHeaderLevel'_def
      New_def bind_def acolor_defs Level_defs LogLevel_defs)

text \<open>
  C3. The claim: after \<^verbatim>\<open>SetLevel(v)\<close> the threshold is always one of the five levels.
  \<^verbatim>\<open>SetLevel\<close> of \<^verbatim>\<open>log.go\<close> stores its argument as it is: after \<^verbatim>\<open>SetLevel(7)\<close> the
  threshold is 7, above \<^verbatim>\<open>ERROR\<close>.
\<close>

theorem SetLevel_unclamped_counterexample:
  "level (SetLevel 7 std) = 7 \<and> \<not> (TRACE \<le> level (SetLevel 7 std) \<and> level (SetLevel 7 std) \<le> ERROR)"
  by (simp add: SetLevel_def Level_defs)

text \<open>
  C3, amended. In the second file, for every value \<open>v\<close>, \<^verbatim>\<open>SetLevel(v)\<close> stores \<open>v\<close> when
  it is between \<^verbatim>\<open>LevelError\<close> and \<^verbatim>\<open>LevelTrace\<close>, \<^verbatim>\<open>LevelError\<close> when it is below and
  \<^verbatim>\<open>LevelTrace\<close> when it is above, so the threshold is valid afterwards; and every
  operation of that file keeps a valid threshold valid (and, with a time read from the
  clock, returns or exits rather than panics). \<^verbatim>\<open>SetLevel\<close> of \<^verbatim>\<open>log.go\<close> stores every
  value unchanged.
\<close>

theorem SetLevel_clamps:
  "level (SetLevel' v l)
     = (if v < LevelError then LevelError else if LevelTrace < v then LevelTrace else v) \<and>
   valid_LogLevel (level (SetLevel' v l)) \<and>
   (valid_LogLevel (level (logger p)) \<longrightarrow>
      (case reached (run' sp now x p) of
         None \<Rightarrow> True
       | Some p' \<Rightarrow> valid_LogLevel (level (logger p')))) \<and>
   (valid_Time now \<longrightarrow> reached (run' sp now x p) \<noteq> None) \<and>
   level (SetLevel v l) = v"
proof (intro conjI impI)
  assume "valid_Time now"
  then show "reached (run' sp now x p) \<noteq> None" by (rule run'_reaches)
next
  show "level (SetLevel' v l)
     = (if v < LevelError then LevelError else if LevelTrace < v then LevelTrace else v)"
    by (simp add: SetLevel'_def)
  show "valid_LogLevel (level (SetLevel' v l))" by (rule SetLevel'_valid)
  show "level (SetLevel v l) = v" by (simp add: SetLevel_def)
  assume inv: "valid_LogLevel (level (logger p))"
  show "case reached (run' sp now x p) of
         None \<Rightarrow> True
       | Some p' \<Rightarrow> valid_LogLevel (level (logger p'))"
  proof (cases "\<exists>lv. x = SetLevelOp lv")
    case True
    then show ?thesis by (auto simp: SetLevel'_valid)
  next
    case False
    then show ?thesis
      using inv run'_level [of sp now x p] by (auto split: option.splits)
  qed
qed

theorem SetLevel_clamps_witness:
  "level (SetLevel' 9 std') = LevelTrace \<and> level (SetLevel' (- 3) std') = LevelError \<and>
   level (SetLevel' 2 std') = 2 \<and>
   valid_LogLevel (level (logger \<lparr>logger = std', fmt_calls = 0\<rparr>)) \<and>
   valid_Time now0 \<and>
   reached (run' (\<lambda>f v. f) now0 (InfoOp [VString ''hi'']) \<lparr>logger = std', fmt_calls = 0\<rparr>) \<noteq> None \<and>
   (case reached (run' (\<lambda>f v. f) now0 (InfoOp [VString ''hi'']) \<lparr>logger = std', fmt_calls = 0\<rparr>) of
      None \<Rightarrow> True
    | Some p' \<Rightarrow> valid_LogLevel (level (logger p'))) \<and>
   level (SetLevel 7 std') = 7"
proof -
  have v: "valid_LogLevel (level (logger \<lparr>logger = std', fmt_calls = 0\<rparr>))"
    by (simp add: std'_def New_def valid_LogLevel_def LogLevel_defs)
  note t = SetLevel_clamps [where l = "std'" and p = "\<lparr>logger = std', fmt_calls = 0\<rparr>"
      and sp = "\<lambda>f v. f" and now = now0 and x = "InfoOp [VString ''hi'']"]
  show ?thesis
    using v valid_now0 t [where v = 9] t [where v = "- 3"] t [where v = 2] t [where v = 7]
    by (simp add: LogLevel_defs)
qed

text \<open>
  C4. The claim: for every logger state, \<^verbatim>\<open>Error\<close> ends the process and never returns.
  \<^verbatim>\<open>Error\<close> of \<^verbatim>\<open>log.go\<close> first tests the threshold: with the threshold 5 (above
  \<^verbatim>\<open>ERROR\<close>, stored by \<^verbatim>\<open>SetLevel(5)\<close>) it returns, and nothing is written.
\<close>

theorem Error_gated_counterexample:
  "Error now0 [VString ''fatal''] \<lparr>logger = SetLevel 5 std, fmt_calls = 0\<rparr>
     = Returned \<lparr>logger = SetLevel 5 std, fmt_calls = 0\<rparr>"
  by (simp add: Error_def SetLevel_def ERROR_def)

text \<open>
  C4, amended. With a time read from the clock: in the second file, \<^verbatim>\<open>Error\<close> and
  \<^verbatim>\<open>Errorf\<close> hand one block to the sink and then end the process with exit code 1,
  whatever error value the sink answers; in \<^verbatim>\<open>log.go\<close>, \<^verbatim>\<open>Error\<close> does the same when
  the threshold is at most \<^verbatim>\<open>ERROR\<close> (so for each of the five levels), and returns with
  the state unchanged when the threshold is above \<^verbatim>\<open>ERROR\<close>.
\<close>

theorem Error_exits:
  assumes "valid_Time now"
  shows "(\<exists>p'. write_msg' now LevelError v q = Inr (failure (out (logger q)), p') \<and>
               Error' now v q = Exited 1 p' \<and>
               written (out (logger p')) = written (out (logger q)) @ [buf (logger p')]) \<and>
         (\<exists>p'. writef' sp now LevelError f v q = Inr (failure (out (logger q)), p') \<and>
               Errorf' sp now f v q = Exited 1 p' \<and>
               written (out (logger p')) = written (out (logger q)) @ [buf (logger p')]) \<and>
         (level (logger p) \<le> ERROR \<longrightarrow>
            (\<exists>p'. write_msg now ERROR v p = Inr (failure (out (logger p)), p') \<and>
                  Error now v p = Exited 1 p' \<and>
                  written (out (logger p')) = written (out (logger p)) @ [buf (logger p')])) \<and>
         (ERROR < level (logger p) \<longrightarrow> Error now v p = Returned p)"
proof (intro conjI impI)
  obtain p1 where p1: "write_msg' now LevelError v q = Inr (failure (out (logger q)), p1)"
      "written (out (logger p1)) = written (out (logger q)) @ [buf (logger p1)]"
    using write_msg'_sink [OF assms, of LevelError v q] by blast
  then have "Error' now v q = Exited 1 p1" by (simp add: Error'_def)
  with p1 show "\<exists>p'. write_msg' now LevelError v q = Inr (failure (out (logger q)), p') \<and>
               Error' now v q = Exited 1 p' \<and>
               written (out (logger p')) = written (out (logger q)) @ [buf (logger p')]"
    by blast
next
  obtain p2 where p2: "write_msg' now LevelError [VString (sp f v)] q = Inr (failure (out (logger q)), p2)"
      "written (out (logger p2)) = written (out (logger q)) @ [buf (logger p2)]"
    using write_msg'_sink [OF assms, of LevelError "[VString (sp f v)]" q] by blast
  then have "Errorf' sp now f v q = Exited 1 p2" by (simp add: Errorf'_def writef'_as_write)
  with p2 show "\<exists>p'. writef' sp now LevelError f v q = Inr (failure (out (logger q)), p') \<and>
               Errorf' sp now f v q = Exited 1 p' \<and>
               written (out (logger p')) = written (out (logger q)) @ [buf (logger p')]"
    by (simp add: writef'_as_write)
next
  assume g: "level (logger p) \<le> ERROR"
  obtain p3 where p3: "write_msg now ERROR v p = Inr (failure (out (logger p)), p3)"
      "written (out (logger p3)) = written (out (logger p)) @ [buf (logger p3)]"
    using write_msg_sink [OF assms, of ERROR v p] by blast
  then have "Error now v p = Exited 1 p3" using g by (simp add: Error_def)
  with p3 show "\<exists>p'. write_msg now ERROR v p = Inr (failure (out (logger p)), p') \<and>
                  Error now v p = Exited 1 p' \<and>
                  written (out (logger p')) = written (out (logger p)) @ [buf (logger p')]"
    by blast
next
  assume "ERROR < level (logger p)"
  then show "Error now v p = Returned p" by (simp add: Error_def)
qed

theorem Error_exits_witness:
  "valid_Time now0 \<and>
   (\<exists>p'. Error' now0 [VString ''x'']
            \<lparr>logger = New \<lparr>written = [], failure = Some WriteFailed\<rparr> LevelTrace, fmt_calls = 0\<rparr>
          = Exited 1 p') \<and>
   (\<exists>p'. Errorf' (\<lambda>f v. f) now0 ''x'' []
            \<lparr>logger = New \<lparr>written = [], failure = Some WriteFailed\<rparr> LevelTrace, fmt_calls = 0\<rparr>
          = Exited 1 p') \<and>
   level (logger \<lparr>logger = std, fmt_calls = 0\<rparr>) \<le> ERROR \<and>
   (\<exists>p'. Error now0 [VString ''x''] \<lparr>logger = std, fmt_calls = 0\<rparr> = Exited 1 p') \<and>
   ERROR < level (logger \<lparr>logger = SetLevel 5 std, fmt_calls = 0\<rparr>) \<and>
   Error now0 [VString ''x''] \<lparr>logger = SetLevel 5 std, fmt_calls = 0\<rparr>
     = Returned \<lparr>logger = SetLevel 5 std, fmt_calls = 0\<rparr>"
proof -
  have a: "level (logger \<lparr>logger = std, fmt_calls = 0\<rparr>) \<le> ERROR"
    by (simp add: std_def New_def Level_defs)
  have b: "ERROR < level (logger \<lparr>logger = SetLevel 5 std, fmt_calls = 0\<rparr>)"
    by (simp add: SetLevel_def Level_defs)
  note t1 = Error_exits [OF valid_now0, where v = "[VString ''x'']"
      and q = "\<lparr>logger = New \<lparr>written = [], failure = Some WriteFailed\<rparr> LevelTrace, fmt_calls = 0\<rparr>"
      and p = "\<lparr>logger = std, fmt_calls = 0\<rparr>"]
  note t2 = Error_exits [OF valid_now0, where v = "[]" and sp = "\<lambda>f v. f" and f = "''x''"
      and q = "\<lparr>logger = New \<lparr>written = [], failure = Some WriteFailed\<rparr> LevelTrace, fmt_calls = 0\<rparr>"
      and p = "\<lparr>logger = SetLevel 5 std, fmt_calls = 0\<rparr>"]
  note t3 = Error_exits [OF valid_now0, where v = "[VString ''x'']"
      and p = "\<lparr>logger = SetLevel 5 std, fmt_calls = 0\<rparr>"]
  have c1: "\<exists>p'. Error' now0 [VString ''x'']
            \<lparr>logger = New \<lparr>written = [], failure = Some WriteFailed\<rparr> LevelTrace, fmt_calls = 0\<rparr>
          = Exited 1 p'"
    using t1 by blast
  have c2: "\<exists>p'. Errorf' (\<lambda>f v. f) now0 ''x'' []
            \<lparr>logger = New \<lparr>written = [], failure = Some WriteFailed\<rparr> LevelTrace, fmt_calls = 0\<rparr>
          = Exited 1 p'"
    using t2 by blast
  have c3: "\<exists>p'. Error now0 [VString ''x''] \<lparr>logger = std, fmt_calls = 0\<rparr> = Exited 1 p'"
    using t1 a by blast
  have c4: "Error now0 [VString ''x''] \<lparr>logger = SetLevel 5 std, fmt_calls = 0\<rparr>
     = Returned \<lparr>logger = SetLevel 5 std, fmt_calls = 0\<rparr>"
    using t3 b by blast
  show ?thesis using valid_now0 a b c1 c2 c3 c4 by blast
qed

text \<open>
  C5. For \<^verbatim>\<open>Warn\<close>, \<^verbatim>\<open>Info\<close>, \<^verbatim>\<open>Debug\<close> and \<^verbatim>\<open>Trace\<close> of both files and the formatted
  variants of the second file, and every message: when the operation's level is not
  enabled for the current threshold, the call returns with the state it was given. Nothing
  is handed to the sink, no formatting call is counted, and the threshold, the sink, the
  flags and the buffer are unchanged.
\<close>

theorem disabled_is_noop:
  "(\<not> IsLevel (logger p) WARN \<longrightarrow> Warn now v p = Returned p) \<and>
   (\<not> IsLevel (logger p) INFO \<longrightarrow> Info now v p = Returned p) \<and>
   (\<not> IsLevel (logger p) DEBUG \<longrightarrow> Debug now v p = Returned p) \<and>
   (\<not> IsLevel (logger p) TRACE \<longrightarrow> Trace now v p = Returned p) \<and>
   (\<not> IsLevel' (logger q) LevelWarn \<longrightarrow> Warn' now v q = Returned q) \<and>
   (\<not> IsLevel' (logger q) LevelInfo \<longrightarrow> Info' now v q = Returned q) \<and>
   (\<not> IsLevel' (logger q) LevelDebug \<longrightarrow> Debug' now v q = Returned q) \<and>
   (\<not> IsLevel' (logger q) LevelTrace \<longrightarrow> Trace' now v q = Returned q) \<and>
   (\<not> IsLevel' (logger q) LevelWarn \<longrightarrow> Warnf' sp now f v q = Returned q) \<and>
   (\<not> IsLevel' (logger q) LevelInfo \<longrightarrow> Infof' sp now f v q = Returned q) \<and>
   (\<not> IsLevel' (logger q) LevelDebug \<longrightarrow> Debugf' sp now f v q = Returned q) \<and>
   (\<not> IsLevel' (logger q) LevelTrace \<longrightarrow> Tracef' sp now f v q = Returned q)"
  by (simp add: IsLevel_def IsLevel'_def emit_defs emit'_defs)

theorem disabled_is_noop_witness:
  "\<not> IsLevel (logger at_ERROR) WARN \<and>
     Warn now0 [VString ''x''] at_ERROR = Returned at_ERROR \<and>
   \<not> IsLevel (logger at_ERROR) INFO \<and>
     Info now0 [VString ''x''] at_ERROR = Returned at_ERROR \<and>
   \<not> IsLevel (logger at_ERROR) DEBUG \<and>
     Debug now0 [VString ''x''] at_ERROR = Returned at_ERROR \<and>
   \<not> IsLevel (logger at_ERROR) TRACE \<and>
     Trace now0 [VString ''x''] at_ERROR = Returned at_ERROR \<and>
   \<not> IsLevel' (logger at_LevelError) LevelWarn \<and>
     Warn' now0 [VString ''x''] at_LevelError = Returned at_LevelError \<and>
   \<not> IsLevel' (logger at_LevelError) LevelInfo \<and>
     Info' now0 [VString ''x''] at_LevelError = Returned at_LevelError \<and>
   \<not> IsLevel' (logger at_LevelError) LevelDebug \<and>
     Debug' now0 [VString ''x''] at_LevelError = Returned at_LevelError \<and>
   \<not> IsLevel' (logger at_LevelError) LevelTrace \<and>
     Trace' now0 [VString ''x''] at_LevelError = Returned at_LevelError \<and>
   \<not> IsLevel' (logger at_LevelError) LevelWarn \<and>
     Warnf' (\<lambda>f v. f) now0 ''x'' [] at_LevelError = Returned at_LevelError \<and>
   \<not> IsLevel' (logger at_LevelError) LevelInfo \<and>
     Infof' (\<lambda>f v. f) now0 ''x'' [] at_LevelError = Returned at_LevelError \<and>
   \<not> IsLevel' (logger at_LevelError) LevelDebug \<and>
     Debugf' (\<lambda>f v. f) now0 ''x'' [] at_LevelError = Returned at_LevelError \<and>
   \<not> IsLevel' (logger at_LevelError) LevelTrace \<and>
     Tracef' (\<lambda>f v. f) now0 ''x'' [] at_LevelError = Returned at_LevelError"
proof -
  have a: "\<not> IsLevel (logger at_ERROR) WARN" "\<not> IsLevel (logger at_ERROR) INFO"
    "\<not> IsLevel (logger at_ERROR) DEBUG" "\<not> IsLevel (logger at_ERROR) TRACE"
    by (simp_all add: at_ERROR_def IsLevel_def SetLevel_def Level_defs)
  have b: "\<not> IsLevel' (logger at_LevelError) LevelWarn" "\<not> IsLevel' (logger at_LevelError) LevelInfo"
    "\<not> IsLevel' (logger at_LevelError) LevelDebug" "\<not> IsLevel' (logger at_LevelError) LevelTrace"
    by (simp_all add: at_LevelError_def IsLevel'_def SetLevel'_def LogLevel_defs)
  show ?thesis
    using a b
      disabled_is_noop [of at_ERROR now0 "[VString ''x'']" at_LevelError]
      disabled_is_noop [of at_ERROR now0 "[]" at_LevelError "\<lambda>f v. f" "''x''"]
    by simp
qed

text \<open>
  C6. For every time read from the clock, with date and time on and colour and level tag
  off, the header is the day, month and year as \<^verbatim>\<open>DD.MM.YYYY\<close>, a space, the time as
  \<^verbatim>\<open>HH:MM:SS\<close>, the microseconds as \<^verbatim>\<open>.NNNNNN\<close> only when \<^verbatim>\<open>HeadMC\<close> is on, then
  colon and space; every field is zero-padded. For 2024-03-05T07:08:09Z in UTC mode the
  header is \<^verbatim>\<open>05.03.2024 07:08:09: \<close>.
\<close>

theorem header_date_time:
  assumes "\<not> Color l" and "\<not> HeadLevel l" and "HeadDate l" and "HeadTime l"
    and "valid_Time now"
  shows "writeHeader l now [] lv =
     (let c = (if UTC l then in_utc now else here now) in
      Inr (zero_pad 2 (day c) @ ''.'' @ zero_pad 2 (month c) @ ''.'' @ zero_pad 4 (year c)
           @ '' '' @ zero_pad 2 (hour c) @ '':'' @ zero_pad 2 (minute c) @ '':''
           @ zero_pad 2 (sec c)
           @ (if HeadMC l then ''.'' @ zero_pad 6 (nanosecond c div 1000) else [])
           @ '': ''))"
  using assms(1-4)
  by (simp add: writeHeader_eq [OF assms(5)] finish_header_def stamp_def date_text_def
      clock_text_def Let_def butlast_append)

theorem header_date_time_witness:
  "\<not> Color ((New os_Stderr DEBUG)\<lparr>Color := False, HeadLevel := False\<rparr>) \<and>
   \<not> HeadLevel ((New os_Stderr DEBUG)\<lparr>Color := False, HeadLevel := False\<rparr>) \<and>
   HeadDate ((New os_Stderr DEBUG)\<lparr>Color := False, HeadLevel := False\<rparr>) \<and>
   HeadTime ((New os_Stderr DEBUG)\<lparr>Color := False, HeadLevel := False\<rparr>) \<and>
   valid_Time now0 \<and>
   writeHeader ((New os_Stderr DEBUG)\<lparr>Color := False, HeadLevel := False\<rparr>) now0 [] INFO
     = Inr ''05.03.2024 07:08:09: ''"
  using header_date_time [of "(New os_Stderr DEBUG)\<lparr>Color := False, HeadLevel := False\<rparr>" now0 INFO]
    valid_now0
  by (simp add: New_def now0_def civil0_def zero_pad_eval)

text \<open>
  C7. For every non-negative \<^verbatim>\<open>int\<close> \<open>i\<close> and every width up to 20 (2, 4 and 6 are the
  widths of the header), \<^verbatim>\<open>itoa\<close> appends the decimal digits of \<open>i\<close> with zeros on the
  left up to the width, and keeps every digit when there are more than the width.
\<close>

theorem itoa_zero_padded:
  assumes "0 \<le> i" and "i < 2 ^ 63" and "- (2 ^ 63) + 19 \<le> wid" and "wid \<le> 20"
  shows "itoa pre i wid
         = Inr (pre @ replicate (nat wid - length (decimal (nat i))) CHR ''0'' @ decimal (nat i))"
proof -
  have "i < 10 ^ 20" using assms(2) by simp
  then show ?thesis using assms(1,3,4) by (intro itoa_pad)
qed

theorem itoa_zero_padded_witness:
  "(0::int) \<le> 7 \<and> (7::int) < 2 ^ 63 \<and> - (2 ^ 63) + 19 \<le> (2::int) \<and> (2::int) \<le> 20 \<and>
   itoa [] 7 2 = Inr ''07'' \<and> itoa [] 12345 4 = Inr ''12345''"
proof -
  have d: "decimal 7 = ''7''" "decimal 12345 = ''12345''"
    by (simp_all add: decimal.simps digit_chars)
  have a: "itoa [] 7 2 = Inr ''07''"
    using itoa_zero_padded [of 7 2 "[]"] by (simp add: d)
  have b: "itoa [] 12345 4 = Inr ''12345''"
    using itoa_zero_padded [of 12345 4 "[]"] by (simp add: d)
  show ?thesis using a b by simp
qed

text \<open>
  C8. The claim: with colour off the emitted line has no escape byte, and with colour on
  every coloured run of the line is bracketed by its escape sequence and a reset. The
  first half holds (lemma \<open>plain_line_no_escape\<close>), and so does the second when the
  header has a date or a time (lemma \<open>colored_line_with_stamp\<close>). The second fails with
  colour on and neither date nor time in the header: the escape sequence that opens the
  header run loses its final \<^verbatim>\<open>m\<close>, as the line written for \<^verbatim>\<open>Info("x")\<close> shows.
\<close>

theorem write_breaks_escape:
  "(case write_msg now0 INFO [VString ''x'']
           \<lparr>logger = (New os_Stderr TRACE)\<lparr>HeadDate := False, HeadTime := False\<rparr>, fmt_calls = 0\<rparr> of
      Inl e \<Rightarrow> []
    | Inr (err, p') \<Rightarrow> written (out (logger p')))
   = [ESC # ''[1;32m[INFO]  '' @ ESC # ''[0m'' @ ESC # ''[90: '' @ ESC # ''[0mx'' @ [CHR 0x0A]]"
  by (simp add: write_msg_def writeHeader_def getHeaderLevel_def New_def bind_def acolor_defs
      Level_defs Writer_Write_def os_Stderr_def Let_def)

text \<open>
  C9. For every level, format and argument list, \<^verbatim>\<open>writef\<close> does exactly what
  \<^verbatim>\<open>write\<close> does with the one operand \<^verbatim>\<open>Sprintf(format, args...)\<close>: the same result
  (error value or panic) and the same state, so the same header, body, newline and bytes
  in the sink.
\<close>

theorem writef_refines_write:
  "writef' sprintf now lv format v p = write_msg' now lv [VString (sprintf format v)] p"
  by (simp only: writef'_def write_msg'_def Sprint_string)

text \<open>
  C10. The claim: for every non-negative \<open>i\<close> of at most 20 decimal digits and every width
  \<open>w \<le> 20\<close>, \<^verbatim>\<open>itoa\<close> indexes its 20-byte array in bounds. It fails at the width
  \<open>- 2 ^ 63\<close>: \<^verbatim>\<open>wid--\<close> wraps around to the largest \<^verbatim>\<open>int\<close>, the loop goes on and the
  index leaves the array.
\<close>

theorem itoa_width_counterexample:
  "(0::int) \<le> 10 \<and> (10::int) < 10 ^ 20 \<and> - (2 ^ 63) \<le> (20::int) \<and>
   itoa [] 10 (- (2 ^ 63)) = Inl IndexOutOfRange"
proof -
  have "itoa [] 10 (- (2 ^ 63)) = Inl IndexOutOfRange" by code_simp
  then show ?thesis by simp
qed

text \<open>
  C10, amended. For every non-negative \<open>i\<close> of at most 20 decimal digits and every width
  from \<open>- 2 ^ 63 + 19\<close> to 20, \<^verbatim>\<open>itoa\<close> indexes its array in bounds and returns; and the
  upper bound is needed: with any width above 20 the index leaves the array.
\<close>

theorem itoa_index_safe:
  "(0 \<le> i \<and> i < 10 ^ 20 \<and> - (2 ^ 63) + 19 \<le> wid \<and> wid \<le> 20
      \<longrightarrow> (\<exists>s. itoa pre i wid = Inr s)) \<and>
   (20 < wid \<and> wid < 2 ^ 63 \<longrightarrow> itoa pre i wid = Inl IndexOutOfRange)"
proof (intro conjI impI)
  assume "0 \<le> i \<and> i < 10 ^ 20 \<and> - (2 ^ 63) + 19 \<le> wid \<and> wid \<le> 20"
  then have "itoa pre i wid
         = Inr (pre @ replicate (nat wid - length (decimal (nat i))) CHR ''0'' @ decimal (nat i))"
    by (intro itoa_pad) simp_all
  then show "\<exists>s. itoa pre i wid = Inr s" by (rule exI)
next
  assume "20 < wid \<and> wid < 2 ^ 63"
  then show "itoa pre i wid = Inl IndexOutOfRange"
    by (intro itoa_wide) simp_all
qed

theorem itoa_index_safe_witness:
  "(0::int) \<le> 0 \<and> (0::int) < 10 ^ 20 \<and> - (2 ^ 63) + 19 \<le> (20::int) \<and> (20::int) \<le> 20 \<and>
   (\<exists>s. itoa [] 0 20 = Inr s) \<and>
   (20::int) < 21 \<and> (21::int) < 2 ^ 63 \<and> itoa [] 0 21 = Inl IndexOutOfRange"
proof -
  have a: "\<exists>s. itoa [] 0 20 = Inr s"
    using itoa_index_safe [of 0 20 "[]"] by simp
  have b: "itoa [] 0 21 = Inl IndexOutOfRange"
    using itoa_index_safe [of 0 21 "[]"] by simp
  show ?thesis using a b by simp
qed

end
